theory Spec2Isabelle
  imports Complex_Main "HOL-Library.Sublist" "HOL-Library.Multiset"
begin

section \<open>Data model\<close>

text \<open>
  One row of the transaction log read by \<^verbatim>\<open>load_data\<close>. The column
  \<^verbatim>\<open>create_date\<close> is a pandas timestamp, kept here as its integer number of
  nanoseconds since the epoch; \<^verbatim>\<open>amount\<close> is a signed number (negative is a bet,
  positive a win), idealised as a real: rounding of binary floating point is not
  modelled. Identifiers are integers. A cell of \<^verbatim>\<open>user_id\<close> may be empty:
  pandas reads it as a missing value (NaN), which is \<open>None\<close> here. The column
  \<^verbatim>\<open>id\<close> of the log is named \<open>tx_id\<close>. A data frame is the list of its rows,
  in row order.
\<close>

record transaction =
  tx_id :: int
  create_date :: int
  user_id :: "int option"
  gid :: int
  amount :: real

type_synonym dataframe = "transaction list"

text \<open>
  The dtype of the column \<^verbatim>\<open>amount\<close>. \<^verbatim>\<open>read_excel\<close> gives the column the
  dtype \<^verbatim>\<open>int64\<close> when every cell of the sheet's column holds an integer, and
  \<^verbatim>\<open>float64\<close> otherwise; the filtered frame and every frame derived from it keep
  the dtype of the loaded one, so it is a parameter of the aggregates that depend on
  it. On an \<^verbatim>\<open>int64\<close> column every amount is an integer.
\<close>

datatype dtype = int64 | float64

definition int_amounts :: "dataframe \<Rightarrow> bool" where
  "int_amounts df \<longleftrightarrow> (\<forall>r\<in>set df. amount r = of_int \<lfloor>amount r\<rfloor>)"

text \<open>Two's complement wrap-around of a 64-bit signed integer.\<close>

definition wrap_int64 :: "int \<Rightarrow> int" where
  "wrap_int64 n = (n + 2 ^ 63) mod 2 ^ 64 - 2 ^ 63"

text \<open>
  \<^verbatim>\<open>Series.sum()\<close>, and the sum of a group, as a numpy scalar of the column's
  dtype, 0 on an empty column: on \<^verbatim>\<open>int64\<close> the sum wraps around silently (the
  amounts are integers there, so the floor is the sum itself); on \<^verbatim>\<open>float64\<close>
  it is the sum of the reals.
\<close>

definition sum_as :: "dtype \<Rightarrow> real list \<Rightarrow> real" where
  "sum_as dt xs =
     (case dt of
        int64 \<Rightarrow> of_int (wrap_int64 \<lfloor>sum_list xs\<rfloor>)
      | float64 \<Rightarrow> sum_list xs)"

text \<open>
  \<^verbatim>\<open>abs\<close> of such a scalar: on \<^verbatim>\<open>int64\<close> the absolute value wraps too, so
  that the least integer is its own absolute value.
\<close>

definition abs_as :: "dtype \<Rightarrow> real \<Rightarrow> real" where
  "abs_as dt v =
     (case dt of
        int64 \<Rightarrow> of_int (wrap_int64 \<bar>\<lfloor>v\<rfloor>\<bar>)
      | float64 \<Rightarrow> \<bar>v\<bar>)"

text \<open>The difference of two such scalars.\<close>

definition sub_as :: "dtype \<Rightarrow> real \<Rightarrow> real \<Rightarrow> real" where
  "sub_as dt a b =
     (case dt of
        int64 \<Rightarrow> of_int (wrap_int64 (\<lfloor>a\<rfloor> - \<lfloor>b\<rfloor>))
      | float64 \<Rightarrow> a - b)"

text \<open>
  \<^verbatim>\<open>Series.mean()\<close> and \<^verbatim>\<open>np.mean\<close>: every call in the source is guarded by
  a non-emptiness test; on an empty column pandas gives NaN, which no caller modelled
  here can reach. pandas adds an integer column up in floating point for the mean, so
  there is no wrap-around here, nor in the standard deviation below.
\<close>

definition col_mean :: "real list \<Rightarrow> real" where
  "col_mean xs = sum_list xs / real (length xs)"

text \<open>
  \<^verbatim>\<open>Series.std()\<close> with its default \<^verbatim>\<open>ddof=1\<close>, as pandas computes it: with
  \<open>d = count - ddof\<close>, the result is NaN when \<open>d \<le> 0\<close>, and otherwise the
  square root of the sum of squared deviations from the mean divided by \<open>d\<close>.
  NaN is the value \<open>None\<close>.
\<close>

definition col_std :: "real list \<Rightarrow> real option" where
  "col_std xs =
     (let count = length xs;
          d = int count - 1
      in if d \<le> 0 then None
         else (let avg = sum_list xs / real count;
                   sqr = sum_list (map (\<lambda>v. (avg - v)\<^sup>2) xs)
               in Some (sqrt (sqr / real_of_int d))))"

text \<open>
  \<^verbatim>\<open>Series.nunique()\<close>: the number of distinct values of a column, missing
  values left out.
\<close>

definition nunique :: "int option list \<Rightarrow> nat" where
  "nunique xs = length (remdups (List.map_filter (\<lambda>x. x) xs))"

text \<open>
  \<^verbatim>\<open>groupby('user_id')['amount']\<close>: one group per distinct user, in ascending
  order of the key, each holding the amounts of that user's rows in row order. Rows
  with a missing \<^verbatim>\<open>user_id\<close> belong to no group (\<^verbatim>\<open>dropna=True\<close> is the
  default), so the result can be empty on a frame that has rows.
\<close>

definition groupby_user_id :: "dataframe \<Rightarrow> (int \<times> real list) list" where
  "groupby_user_id df =
     map (\<lambda>u. (u, map amount (filter (\<lambda>r. user_id r = Some u) df)))
         (sort (remdups (List.map_filter user_id df)))"

text \<open>\<^verbatim>\<open>groupby('gid')\<close>: one group of rows per distinct game, keys ascending.\<close>

definition groupby_gid :: "dataframe \<Rightarrow> (int \<times> dataframe) list" where
  "groupby_gid df =
     map (\<lambda>g. (g, filter (\<lambda>r. gid r = g) df)) (sort (remdups (map gid df)))"

section \<open>Loading (line 49) and the raw view (lines 609 to 623)\<close>

definition Bet_type :: string where
  "Bet_type = ''Bet ('' @ [CHR 0xE4, CHR 0xB8, CHR 0x8B, CHR 0xE6, CHR 0xB3, CHR 0xA8] @ '')''"

definition Win_type :: string where
  "Win_type = ''Win ('' @ [CHR 0xE4, CHR 0xB8, CHR 0xAD, CHR 0xE5, CHR 0xA5, CHR 0x96] @ '')''"

text \<open>
  The label that \<^verbatim>\<open>load_data\<close> writes into the column \<^verbatim>\<open>type\<close>. The labels
  carry CJK text, given here by its UTF-8 bytes.
\<close>

definition type_of_amount :: "real \<Rightarrow> string" where
  "type_of_amount x = (if x < 0 then Bet_type else Win_type)"

record display_row = transaction +
  type :: string

definition with_type :: "transaction \<Rightarrow> display_row" where
  "with_type r = transaction.extend r \<lparr>type = type_of_amount (amount r)\<rparr>"

text \<open>
  The raw-data table of the fourth tab: every row of the filtered frame with its
  label, latest first. The order among equal timestamps is not fixed by pandas; the
  model takes the reverse of the stable ascending sort.
\<close>

definition display_df :: "dataframe \<Rightarrow> display_row list" where
  "display_df filtered_df = rev (sort_key create_date (map with_type filtered_df))"

section \<open>KPI aggregator (lines 163 to 181)\<close>

definition bet_df :: "dataframe \<Rightarrow> dataframe" where
  "bet_df filtered_df = filter (\<lambda>r. amount r < 0) filtered_df"

definition win_df :: "dataframe \<Rightarrow> dataframe" where
  "win_df filtered_df = filter (\<lambda>r. amount r > 0) filtered_df"

definition spin_count :: "dataframe \<Rightarrow> nat" where
  "spin_count filtered_df = length (bet_df filtered_df)"

text \<open>
  \<^verbatim>\<open>abs(bet_df['amount'].sum())\<close>: the sum is a numpy scalar of the dtype \<open>dt\<close>
  of the column, and so is its absolute value.
\<close>

definition total_turnover :: "dtype \<Rightarrow> dataframe \<Rightarrow> real" where
  "total_turnover dt filtered_df = abs_as dt (sum_as dt (map amount (bet_df filtered_df)))"


definition total_payout :: "dtype \<Rightarrow> dataframe \<Rightarrow> real" where
  "total_payout dt filtered_df = sum_as dt (map amount (win_df filtered_df))"

definition ggr :: "dtype \<Rightarrow> dataframe \<Rightarrow> real" where
  "ggr dt filtered_df = sub_as dt (total_turnover dt filtered_df) (total_payout dt filtered_df)"

definition rtp :: "dtype \<Rightarrow> dataframe \<Rightarrow> real" where
  "rtp dt filtered_df =
     (if total_turnover dt filtered_df > 0
      then total_payout dt filtered_df / total_turnover dt filtered_df * 100 else 0)"

definition win_rate :: "dataframe \<Rightarrow> real" where
  "win_rate filtered_df =
     (if spin_count filtered_df > 0
      then real (length (win_df filtered_df)) / real (spin_count filtered_df) * 100 else 0)"

section \<open>Retention (lines 199 to 222)\<close>

definition ns_per_day :: int where
  "ns_per_day = 86400000000000"

text \<open>\<^verbatim>\<open>create_date.dt.date\<close>: the calendar day, as a day number.\<close>

definition date_str :: "transaction \<Rightarrow> int" where
  "date_str r = create_date r div ns_per_day"

definition unique_dates :: "dataframe \<Rightarrow> int list" where
  "unique_dates filtered_df = sort (remdups (map date_str filtered_df))"

text \<open>
  \<^verbatim>\<open>set(filtered_df[filtered_df['date_str'] == day]['user_id'])\<close>, a Python set
  of the values of the column. With a missing value the column of integer ids is a
  float column, and iterating it makes a new NaN object for every row with a missing
  id; a NaN is equal to no object but itself, so each such row is one more element
  of the set, and none of them is in the set of another day. \<open>Inl u\<close> is the id
  \<open>u\<close>, \<open>Inr i\<close> the NaN of the row at position \<open>i\<close>.
\<close>

definition users_on :: "dataframe \<Rightarrow> int \<Rightarrow> (int + nat) set" where
  "users_on filtered_df day =
     set (map (\<lambda>(i, r). case user_id r of Some u \<Rightarrow> Inl u | None \<Rightarrow> Inr i)
              (filter (\<lambda>(i, r). date_str r = day) (enumerate 0 filtered_df)))"

record retention_point =
  date :: int
  retention_rate :: real

text \<open>The body of the loop over \<^verbatim>\<open>range(len(unique_dates) - 1)\<close>, at index \<open>i\<close>.\<close>

definition retention_step :: "dataframe \<Rightarrow> nat \<Rightarrow> retention_point" where
  "retention_step filtered_df i =
     (let current_day = unique_dates filtered_df ! i;
          next_day = unique_dates filtered_df ! (i + 1);
          users_current = users_on filtered_df current_day;
          users_next = users_on filtered_df next_day;
          retained = card (users_current \<inter> users_next);
          rate = (if card users_current > 0
                  then real retained / real (card users_current) * 100 else 0)
      in \<lparr>date = current_day, retention_rate = rate\<rparr>)"

text \<open>
  The range is empty when there is no date at all: \<^verbatim>\<open>range(-1)\<close> in Python, and
  \<open>0 - 1 = 0\<close> on the naturals here.
\<close>

definition retention_data :: "dataframe \<Rightarrow> retention_point list" where
  "retention_data filtered_df =
     map (retention_step filtered_df) [0..<length (unique_dates filtered_df) - 1]"

definition avg_retention :: "dataframe \<Rightarrow> real" where
  "avg_retention filtered_df =
     (if retention_data filtered_df \<noteq> []
      then col_mean (map retention_rate (retention_data filtered_df)) else 0)"

section \<open>Game performance analyzer (lines 259 to 294)\<close>

record game_stats =
  Turnover :: real
  Payout :: real
  GGR :: real
  RTP :: real
  Volatility :: "real option"
  Hit_Rate :: real
  Winner_pct :: real
  Small_Win :: nat
  Big_Win :: nat
  Mega_Win :: nat
  Super_Win :: nat
  Avg_Multiplier :: real

text \<open>
  The locals of \<^verbatim>\<open>analyze_game_performance\<close> that the banding depends on are
  definitions of their own, so that statements can name them.
\<close>

definition game_bet_df :: "dataframe \<Rightarrow> dataframe" where
  "game_bet_df x = filter (\<lambda>r. amount r < 0) x"

definition game_win_df :: "dataframe \<Rightarrow> dataframe" where
  "game_win_df x = filter (\<lambda>r. amount r > 0) x"

definition avg_bet_game :: "dataframe \<Rightarrow> real" where
  "avg_bet_game x =
     (if game_bet_df x \<noteq> [] then \<bar>col_mean (map amount (game_bet_df x))\<bar> else 1)"

definition multipliers :: "dataframe \<Rightarrow> real list" where
  "multipliers x = map (\<lambda>r. amount r / avg_bet_game x) (game_win_df x)"

text \<open>The four boolean masks over the multipliers (lines 274 to 277).\<close>

definition small_mask :: "real \<Rightarrow> bool" where
  "small_mask m \<longleftrightarrow> m > 0 \<and> m \<le> 5"

definition big_mask :: "real \<Rightarrow> bool" where
  "big_mask m \<longleftrightarrow> m > 5 \<and> m \<le> 20"

definition mega_mask :: "real \<Rightarrow> bool" where
  "mega_mask m \<longleftrightarrow> m > 20 \<and> m \<le> 50"

definition super_mask :: "real \<Rightarrow> bool" where
  "super_mask m \<longleftrightarrow> m > 50"

definition analyze_game_performance :: "dtype \<Rightarrow> dataframe \<Rightarrow> game_stats" where
  "analyze_game_performance dt x =
     (let turnover = abs_as dt (sum_as dt (map amount (game_bet_df x)));
          payout = sum_as dt (map amount (game_win_df x));
          ggr = sub_as dt turnover payout;
          winners = map (\<lambda>(u, a). sum_as dt a) (groupby_user_id x);
          winner_count = length (filter (\<lambda>w. w > 0) winners);
          small_win = length (filter small_mask (multipliers x));
          big_win = length (filter big_mask (multipliers x));
          mega_win = length (filter mega_mask (multipliers x));
          super_win = length (filter super_mask (multipliers x))
      in \<lparr>Turnover = turnover,
          Payout = payout,
          GGR = ggr,
          RTP = (if turnover > 0 then payout / turnover * 100 else 0),
          Volatility = col_std (map amount x),
          Hit_Rate = (if game_bet_df x \<noteq> []
                      then real (length (game_win_df x)) / real (length (game_bet_df x)) * 100
                      else 0),
          Winner_pct = (if nunique (map user_id x) > 0
                        then real winner_count / real (nunique (map user_id x)) * 100
                        else 0),
          Small_Win = small_win,
          Big_Win = big_win,
          Mega_Win = mega_win,
          Super_Win = super_win,
          Avg_Multiplier = (if multipliers x \<noteq> [] then col_mean (multipliers x) else 0)\<rparr>)"

definition game_stats_detailed :: "dtype \<Rightarrow> dataframe \<Rightarrow> (int \<times> game_stats) list" where
  "game_stats_detailed dt filtered_df =
     map (\<lambda>(g, x). (g, analyze_game_performance dt x)) (groupby_gid filtered_df)"

text \<open>
  The sample standard deviation in the words of the specification, to compare
  \<^verbatim>\<open>Volatility\<close> with: the root of the sum of squared deviations from the mean
  over \<open>n - 1\<close>.
\<close>

definition sample_std :: "real list \<Rightarrow> real" where
  "sample_std xs =
     sqrt ((\<Sum>i<length xs. (xs ! i - (\<Sum>j<length xs. xs ! j) / real (length xs))\<^sup>2)
           / (real (length xs) - 1))"

section \<open>User tags (lines 57 to 72)\<close>









section \<open>Temporal replay (lines 400 to 483)\<close>

text \<open>
  \<^verbatim>\<open>sort_values('create_date')\<close>. pandas does not fix the order of rows with
  equal timestamps; the model takes the stable sort, and the statements about slices
  below hold for every frame that is sorted by timestamp.
\<close>

definition sorted_df :: "dataframe \<Rightarrow> dataframe" where
  "sorted_df filtered_df = sort_key create_date filtered_df"

text \<open>
  \<^verbatim>\<open>Series.searchsorted(v, side='right')\<close>: the binary search of numpy, which
  halves the interval \<open>[lo, hi)\<close> and moves right on equal keys.
\<close>

function searchsorted_loop :: "int list \<Rightarrow> int \<Rightarrow> nat \<Rightarrow> nat \<Rightarrow> nat" where
  "searchsorted_loop a v lo hi =
     (if lo < hi
      then (let mid = lo + (hi - lo) div 2
            in if v < a ! mid then searchsorted_loop a v lo mid
               else searchsorted_loop a v (mid + 1) hi)
      else lo)"
  by pat_completeness auto
termination
  by (relation "measure (\<lambda>(a, v, lo, hi). hi - lo)") auto

declare searchsorted_loop.simps [simp del]

definition searchsorted_right :: "int list \<Rightarrow> int \<Rightarrow> nat" where
  "searchsorted_right a v = searchsorted_loop a v 0 (length a)"

record user_agg =
  agg_user_id :: int
  cum_bet :: real
  cum_pnl :: real

text \<open>
  The named aggregation \<^verbatim>\<open>agg(cum_bet=lambda x: abs(x[x < 0].sum()), cum_pnl='sum')\<close>
  over the groups of one user each.
\<close>

definition agg_cum :: "dtype \<Rightarrow> dataframe \<Rightarrow> user_agg list" where
  "agg_cum dt df =
     map (\<lambda>(u, x). \<lparr>agg_user_id = u,
                      cum_bet = abs_as dt (sum_as dt (filter (\<lambda>v. v < 0) x)),
                      cum_pnl = sum_as dt x\<rparr>)
         (groupby_user_id df)"





definition Winner_status :: string where
  "Winner_status = ''Winner ('' @ [CHR 0xE8, CHR 0xB5, CHR 0xA2] @ '')''"

definition Loser_status :: string where
  "Loser_status = ''Loser ('' @ [CHR 0xE8, CHR 0xBE, CHR 0x93] @ '')''"

record user_snapshot_row = user_agg +
  status :: string

text \<open>
  What \<^verbatim>\<open>px.scatter\<close> is given: the time of the title, the table that is
  plotted, and the two axis ranges.
\<close>

record figure =
  fig_time :: int
  fig_data :: "user_snapshot_row list"
  range_x :: "real \<times> real"
  range_y :: "real \<times> real"

text \<open>Lines 463 and 464: the prefix \<^verbatim>\<open>sorted_df.iloc[:idx]\<close>.\<close>

definition subset_df :: "dataframe \<Rightarrow> int \<Rightarrow> dataframe" where
  "subset_df sdf curr_time =
     (let idx = searchsorted_right (map create_date sdf) curr_time in take idx sdf)"

definition user_snapshot :: "dtype \<Rightarrow> dataframe \<Rightarrow> user_snapshot_row list" where
  "user_snapshot dt sub =
     map (\<lambda>a. user_agg.extend a
                 \<lparr>status = (if cum_pnl a > 0 then Winner_status else Loser_status)\<rparr>)
         (agg_cum dt sub)"

text \<open>
  \<^verbatim>\<open>plot_snapshot\<close> closes over the sorted frame, whose amounts have the dtype
  \<open>dt\<close>, and over the three bounds; they are parameters here. Python's
  \<^verbatim>\<open>None\<close> is \<open>None\<close>.
\<close>

definition plot_snapshot ::
  "dtype \<Rightarrow> dataframe \<Rightarrow> real \<Rightarrow> real \<Rightarrow> real \<Rightarrow> int \<Rightarrow> figure option" where
  "plot_snapshot dt sdf mb mn mx curr_time =
     (if subset_df sdf curr_time \<noteq> []
      then Some \<lparr>fig_time = curr_time,
                 fig_data = user_snapshot dt (subset_df sdf curr_time),
                 range_x = (0, mb),
                 range_y = (mn, mx)\<rparr>
      else None)"


section \<open>Example data\<close>

text \<open>
  The scenario of the specification: two users on one game, one bet and one win each.
\<close>

definition scenario_df :: dataframe where
  "scenario_df =
     [\<lparr>tx_id = 1, create_date = 30, user_id = Some 2, gid = 1, amount = 250\<rparr>,
      \<lparr>tx_id = 2, create_date = 10, user_id = Some 1, gid = 1, amount = -100\<rparr>,
      \<lparr>tx_id = 3, create_date = 20, user_id = Some 2, gid = 1, amount = -200\<rparr>,
      \<lparr>tx_id = 4, create_date = 20, user_id = Some 1, gid = 1, amount = 50\<rparr>]"

text \<open>
  Two games: game 7 with an average bet of 10 and wins on each band boundary, game 8
  with a single win and no bet.
\<close>

definition bands_df :: dataframe where
  "bands_df =
     [\<lparr>tx_id = 1, create_date = 1, user_id = Some 1, gid = 7, amount = -10\<rparr>,
      \<lparr>tx_id = 2, create_date = 2, user_id = Some 1, gid = 7, amount = 50\<rparr>,
      \<lparr>tx_id = 3, create_date = 3, user_id = Some 2, gid = 7, amount = -10\<rparr>,
      \<lparr>tx_id = 4, create_date = 4, user_id = Some 2, gid = 7, amount = 200\<rparr>,
      \<lparr>tx_id = 5, create_date = 5, user_id = Some 3, gid = 8, amount = 5\<rparr>,
      \<lparr>tx_id = 6, create_date = 6, user_id = Some 2, gid = 7, amount = 500\<rparr>,
      \<lparr>tx_id = 7, create_date = 7, user_id = Some 1, gid = 7, amount = 501\<rparr>]"

text \<open>
  Three active days with a gap (day numbers 0, 1 and 3): users 1 and 2 on the first,
  user 1 on the second, users 1 and 3 on the last.
\<close>

definition retention_df :: dataframe where
  "retention_df =
     [\<lparr>tx_id = 1, create_date = 0, user_id = Some 1, gid = 1, amount = -10\<rparr>,
      \<lparr>tx_id = 2, create_date = 1000, user_id = Some 2, gid = 1, amount = -10\<rparr>,
      \<lparr>tx_id = 3, create_date = 86400000000000, user_id = Some 1, gid = 1, amount = 20\<rparr>,
      \<lparr>tx_id = 4, create_date = 259200000000000, user_id = Some 3, gid = 1, amount = -5\<rparr>,
      \<lparr>tx_id = 5, create_date = 259200000000001, user_id = Some 1, gid = 1, amount = -5\<rparr>]"

text \<open>
  Two days with rows that lack the user id: user 1 and two such rows on the first
  day, user 1 and one such row on the second.
\<close>

definition missing_id_df :: dataframe where
  "missing_id_df =
     [\<lparr>tx_id = 1, create_date = 0, user_id = None, gid = 1, amount = -10\<rparr>,
      \<lparr>tx_id = 2, create_date = 1, user_id = Some 1, gid = 1, amount = -10\<rparr>,
      \<lparr>tx_id = 3, create_date = 2, user_id = None, gid = 1, amount = -10\<rparr>,
      \<lparr>tx_id = 4, create_date = 86400000000000, user_id = Some 1, gid = 1, amount = 20\<rparr>,
      \<lparr>tx_id = 5, create_date = 86400000000001, user_id = None, gid = 1, amount = 20\<rparr>]"



text \<open>
  An integral sheet with two bets of \<open>2\<^sup>6\<^sup>2\<close> each: their sum is the least
  64-bit integer.
\<close>

definition overflow_df :: dataframe where
  "overflow_df =
     [\<lparr>tx_id = 1, create_date = 10, user_id = Some 1, gid = 1,
        amount = - 4611686018427387904\<rparr>,
      \<lparr>tx_id = 2, create_date = 20, user_id = Some 1, gid = 1,
        amount = - 4611686018427387904\<rparr>]"

text \<open>A row with amount zero, and a user whose bets and wins cancel.\<close>

definition zero_tx :: transaction where
  "zero_tx = \<lparr>tx_id = 9, create_date = 40, user_id = Some 1, gid = 1, amount = 0\<rparr>"


section \<open>Helper lemmas\<close>


lemma sum_list_nonpos:
  "(\<And>x. x \<in> set xs \<Longrightarrow> x \<le> 0) \<Longrightarrow> sum_list xs \<le> (0::real)"
  by (induction xs) (auto intro: add_nonpos_nonpos)

lemma abs_sum_list_neg:
  "(\<And>x. x \<in> set xs \<Longrightarrow> x \<le> 0) \<Longrightarrow> \<bar>sum_list xs\<bar> = sum_list (map abs (xs::real list))"
proof (induction xs)
  case Nil
  then show ?case by simp
next
  case (Cons x xs)
  have tl: "sum_list xs \<le> 0" using Cons.prems by (intro sum_list_nonpos) simp
  have hd: "x \<le> 0" using Cons.prems by simp
  have "\<bar>sum_list xs\<bar> = sum_list (map abs xs)" using Cons by simp
  then show ?case using tl hd by simp
qed

lemma searchsorted_loop_spec:
  assumes "sorted a" "lo \<le> hi" "hi \<le> length a"
    and "\<forall>i<lo. a ! i \<le> v" and "\<forall>i. hi \<le> i \<and> i < length a \<longrightarrow> v < a ! i"
  shows "lo \<le> searchsorted_loop a v lo hi \<and> searchsorted_loop a v lo hi \<le> hi
     \<and> (\<forall>i<searchsorted_loop a v lo hi. a ! i \<le> v)
     \<and> (\<forall>i. searchsorted_loop a v lo hi \<le> i \<and> i < length a \<longrightarrow> v < a ! i)"
  using assms
proof (induction a v lo hi rule: searchsorted_loop.induct)
  case (1 a v lo hi)
  show ?case
  proof (cases "lo < hi")
    case False
    then have "searchsorted_loop a v lo hi = lo" by (simp add: searchsorted_loop.simps)
    moreover have "lo = hi" using False "1.prems" by simp
    ultimately show ?thesis using "1.prems" by simp
  next
    case True
    define mid where "mid = lo + (hi - lo) div 2"
    have mid: "lo \<le> mid" "mid < hi" using True by (auto simp: mid_def)
    show ?thesis
    proof (cases "v < a ! mid")
      case lt: True
      have eq: "searchsorted_loop a v lo hi = searchsorted_loop a v lo mid"
        using True lt by (subst searchsorted_loop.simps) (simp add: mid_def Let_def)
      have up: "\<forall>i. mid \<le> i \<and> i < length a \<longrightarrow> v < a ! i"
      proof (intro allI impI)
        fix i assume "mid \<le> i \<and> i < length a"
        then have "a ! mid \<le> a ! i" using \<open>sorted a\<close> by (simp add: sorted_nth_mono)
        then show "v < a ! i" using lt by simp
      qed
      have "lo \<le> searchsorted_loop a v lo mid \<and> searchsorted_loop a v lo mid \<le> mid
         \<and> (\<forall>i<searchsorted_loop a v lo mid. a ! i \<le> v)
         \<and> (\<forall>i. searchsorted_loop a v lo mid \<le> i \<and> i < length a \<longrightarrow> v < a ! i)"
        using "1.IH"(1)[OF True mid_def lt] "1.prems" mid up by simp
      then show ?thesis using eq mid by simp
    next
      case ge: False
      have eq: "searchsorted_loop a v lo hi = searchsorted_loop a v (mid + 1) hi"
        using True ge by (subst searchsorted_loop.simps) (simp add: mid_def Let_def)
      have midlen: "mid < length a" using mid "1.prems" by simp
      have low: "\<forall>i<mid + 1. a ! i \<le> v"
      proof (intro allI impI)
        fix i assume "i < mid + 1"
        then have "a ! i \<le> a ! mid" using \<open>sorted a\<close> midlen by (simp add: sorted_nth_mono)
        then show "a ! i \<le> v" using ge by simp
      qed
      have "mid + 1 \<le> searchsorted_loop a v (mid + 1) hi \<and> searchsorted_loop a v (mid + 1) hi \<le> hi
         \<and> (\<forall>i<searchsorted_loop a v (mid + 1) hi. a ! i \<le> v)
         \<and> (\<forall>i. searchsorted_loop a v (mid + 1) hi \<le> i \<and> i < length a \<longrightarrow> v < a ! i)"
        using "1.IH"(2)[OF True mid_def ge] "1.prems" mid low by simp
      then show ?thesis using eq mid by simp
    qed
  qed
qed

lemma searchsorted_right_spec:
  assumes "sorted a"
  shows "searchsorted_right a v \<le> length a
     \<and> (\<forall>i<searchsorted_right a v. a ! i \<le> v)
     \<and> (\<forall>i. searchsorted_right a v \<le> i \<and> i < length a \<longrightarrow> v < a ! i)"
  using searchsorted_loop_spec [of a 0 "length a" v] assms
  by (simp add: searchsorted_right_def)

lemma subset_df_bounds:
  assumes "sorted (map create_date sdf)"
  shows "searchsorted_right (map create_date sdf) t \<le> length sdf
     \<and> (\<forall>i<searchsorted_right (map create_date sdf) t. create_date (sdf ! i) \<le> t)
     \<and> (\<forall>i. searchsorted_right (map create_date sdf) t \<le> i \<and> i < length sdf
            \<longrightarrow> t < create_date (sdf ! i))"
proof -
  let ?idx = "searchsorted_right (map create_date sdf) t"
  have s: "?idx \<le> length (map create_date sdf)"
     "\<forall>i<?idx. map create_date sdf ! i \<le> t"
     "\<forall>i. ?idx \<le> i \<and> i < length (map create_date sdf) \<longrightarrow> t < map create_date sdf ! i"
    using searchsorted_right_spec [OF assms, of t] by auto
  have a: "?idx \<le> length sdf" using s(1) by simp
  have b: "\<forall>i<?idx. create_date (sdf ! i) \<le> t"
  proof (intro allI impI)
    fix i assume i: "i < ?idx"
    then have "i < length sdf" using a by simp
    then show "create_date (sdf ! i) \<le> t" using s(2) i by (metis nth_map)
  qed
  have c: "\<forall>i. ?idx \<le> i \<and> i < length sdf \<longrightarrow> t < create_date (sdf ! i)"
  proof (intro allI impI)
    fix i assume i: "?idx \<le> i \<and> i < length sdf"
    then have "t < map create_date sdf ! i" using s(3) by simp
    then show "t < create_date (sdf ! i)" using i by simp
  qed
  show ?thesis using a b c by blast
qed

lemma subset_df_takeWhile:
  assumes "sorted (map create_date sdf)"
  shows "subset_df sdf t = takeWhile (\<lambda>r. create_date r \<le> t) sdf"
proof -
  let ?idx = "searchsorted_right (map create_date sdf) t"
  have s: "?idx \<le> length sdf"
     "\<forall>i<?idx. create_date (sdf ! i) \<le> t"
     "\<forall>i. ?idx \<le> i \<and> i < length sdf \<longrightarrow> t < create_date (sdf ! i)"
    using subset_df_bounds [OF assms, of t] by auto
  have "takeWhile (\<lambda>r. create_date r \<le> t) sdf = take ?idx sdf"
    by (rule takeWhile_eq_take_P_nth) (use s in auto)
  then show ?thesis by (simp add: subset_df_def)
qed

lemma subset_df_filter:
  assumes "sorted (map create_date sdf)"
  shows "subset_df sdf t = filter (\<lambda>r. create_date r \<le> t) sdf"
proof -
  let ?idx = "searchsorted_right (map create_date sdf) t"
  let ?P = "\<lambda>r. create_date r \<le> t"
  have s: "\<forall>i. ?idx \<le> i \<and> i < length sdf \<longrightarrow> t < create_date (sdf ! i)"
    using subset_df_bounds [OF assms, of t] by auto
  have tw: "subset_df sdf t = takeWhile ?P sdf" by (rule subset_df_takeWhile [OF assms])
  have "length (subset_df sdf t) = min (length sdf) ?idx"
    by (simp add: subset_df_def)
  then have len: "length (takeWhile ?P sdf) = min (length sdf) ?idx"
    using tw by simp
  have "\<not> ?P x" if "x \<in> set (dropWhile ?P sdf)" for x
  proof -
    have "x \<in> set (drop (length (takeWhile ?P sdf)) sdf)"
      using that by (simp add: dropWhile_eq_drop)
    then obtain j where j: "x = drop (length (takeWhile ?P sdf)) sdf ! j"
        "j < length sdf - length (takeWhile ?P sdf)"
      by (auto simp: in_set_conv_nth)
    have "min (length sdf) ?idx + j < length sdf" using j(2) len by simp
    moreover have "?idx \<le> min (length sdf) ?idx + j" using calculation by simp
    ultimately have "t < create_date (sdf ! (min (length sdf) ?idx + j))" using s by blast
    moreover have "x = sdf ! (min (length sdf) ?idx + j)" using j len by simp
    ultimately show ?thesis by simp
  qed
  then have "takeWhile ?P sdf = filter ?P sdf" by (rule takeWhile_eq_filter)
  then show ?thesis using tw by simp
qed

lemma sort_Nil_iff: "sort xs = [] \<longleftrightarrow> xs = []"
  by (metis length_0_conv length_sort)

lemma map_filter_Nil_iff: "List.map_filter f xs = [] \<longleftrightarrow> (\<forall>x\<in>set xs. f x = None)"
  by (simp add: List.map_filter_def filter_empty_conv)

lemma agg_cum_Nil_iff: "agg_cum dt df = [] \<longleftrightarrow> (\<forall>r\<in>set df. user_id r = None)"
  by (simp add: agg_cum_def groupby_user_id_def sort_Nil_iff map_filter_Nil_iff)




lemma sorted_sorted_df: "sorted (map create_date (sorted_df fdf))"
  by (simp add: sorted_df_def)

lemma sorted_df_scenario:
  "sorted_df scenario_df =
     [\<lparr>tx_id = 2, create_date = 10, user_id = Some 1, gid = 1, amount = -100\<rparr>,
      \<lparr>tx_id = 3, create_date = 20, user_id = Some 2, gid = 1, amount = -200\<rparr>,
      \<lparr>tx_id = 4, create_date = 20, user_id = Some 1, gid = 1, amount = 50\<rparr>,
      \<lparr>tx_id = 1, create_date = 30, user_id = Some 2, gid = 1, amount = 250\<rparr>]"
  by (simp add: sorted_df_def scenario_df_def)


lemma band_partition:
  "\<forall>m\<in>set ms. 0 < m \<Longrightarrow>
   length (filter small_mask ms) + length (filter big_mask ms)
     + length (filter mega_mask ms) + length (filter super_mask ms) = length ms"
proof (induction ms)
  case Nil
  then show ?case by simp
next
  case (Cons m ms)
  have m: "0 < m" using Cons.prems by simp
  have one: "(if small_mask m then 1 else 0) + (if big_mask m then 1 else 0)
      + (if mega_mask m then 1 else 0) + (if super_mask m then 1 else (0::nat)) = 1"
    using m by (simp add: small_mask_def big_mask_def mega_mask_def super_mask_def)
  have ih: "length (filter small_mask ms) + length (filter big_mask ms)
     + length (filter mega_mask ms) + length (filter super_mask ms) = length ms"
    using Cons by simp
  have "length (filter small_mask (m # ms)) + length (filter big_mask (m # ms))
     + length (filter mega_mask (m # ms)) + length (filter super_mask (m # ms))
     = ((if small_mask m then 1 else 0) + (if big_mask m then 1 else 0)
      + (if mega_mask m then 1 else 0) + (if super_mask m then 1 else (0::nat)))
      + (length (filter small_mask ms) + length (filter big_mask ms)
     + length (filter mega_mask ms) + length (filter super_mask ms))"
    by simp
  then show ?case using one ih by simp
qed

lemma sum_list_neg:
  "xs \<noteq> [] \<Longrightarrow> (\<And>x. x \<in> set xs \<Longrightarrow> x < 0) \<Longrightarrow> sum_list xs < (0::real)"
proof (induction xs)
  case Nil
  then show ?case by simp
next
  case (Cons x xs)
  have "sum_list xs \<le> 0" using Cons.prems(2) by (intro sum_list_nonpos) (simp add: less_imp_le)
  moreover have "x < 0" using Cons.prems(2) by simp
  ultimately show ?case by simp
qed

lemma avg_bet_game_pos: "0 < avg_bet_game x"
proof (cases "game_bet_df x = []")
  case True
  then show ?thesis by (simp add: avg_bet_game_def)
next
  case False
  have "sum_list (map amount (game_bet_df x)) < 0"
    by (rule sum_list_neg) (use False in \<open>auto simp: game_bet_df_def\<close>)
  moreover have "0 < real (length (game_bet_df x))" using False by simp
  ultimately have "col_mean (map amount (game_bet_df x)) < 0"
    by (simp add: col_mean_def divide_neg_pos)
  then show ?thesis using False by (simp add: avg_bet_game_def)
qed

lemma multipliers_pos: "m \<in> set (multipliers x) \<Longrightarrow> 0 < m"
  using avg_bet_game_pos [of x] by (auto simp: multipliers_def game_win_df_def)

lemma band_counts_total:
  "Small_Win (analyze_game_performance dt x) + Big_Win (analyze_game_performance dt x)
     + Mega_Win (analyze_game_performance dt x) + Super_Win (analyze_game_performance dt x)
   = length (game_win_df x)"
proof -
  have "\<forall>m\<in>set (multipliers x). 0 < m" using multipliers_pos by blast
  then have "length (filter small_mask (multipliers x)) + length (filter big_mask (multipliers x))
     + length (filter mega_mask (multipliers x)) + length (filter super_mask (multipliers x))
     = length (multipliers x)" by (rule band_partition)
  then show ?thesis by (simp add: analyze_game_performance_def Let_def multipliers_def)
qed

lemma game_stats_detailed_mem:
  "(g, st) \<in> set (game_stats_detailed dt fdf) \<Longrightarrow>
     g \<in> gid ` set fdf \<and> st = analyze_game_performance dt (filter (\<lambda>r. gid r = g) fdf)"
  by (auto simp: game_stats_detailed_def groupby_gid_def)

lemma sum_list_nth_real: "sum_list xs = (\<Sum>i<length xs. (xs ! i :: real))"
  by (simp add: sum_list_sum_nth atLeast0LessThan)

lemma col_std_single: "length xs = 1 \<Longrightarrow> col_std xs = None"
  by (simp add: col_std_def)

lemma col_std_sample:
  assumes "2 \<le> length xs"
  shows "col_std xs = Some (sample_std xs)"
proof -
  define n where "n = length xs"
  define avg where "avg = sum_list xs / real n"
  have d: "\<not> int n - 1 \<le> 0" using assms by (simp add: n_def)
  have dd: "real_of_int (int n - 1) = real n - 1" by simp
  have avg: "avg = (\<Sum>j<n. xs ! j) / real n"
    unfolding avg_def n_def by (subst sum_list_nth_real) (rule refl)
  have "sum_list (map (\<lambda>v. (avg - v)\<^sup>2) xs)
      = (\<Sum>i<length (map (\<lambda>v. (avg - v)\<^sup>2) xs). (map (\<lambda>v. (avg - v)\<^sup>2) xs) ! i)"
    by (rule sum_list_nth_real)
  also have "\<dots> = (\<Sum>i<n. (xs ! i - avg)\<^sup>2)"
    by (rule sum.cong) (simp_all add: n_def power2_commute)
  finally have sqr: "sum_list (map (\<lambda>v. (avg - v)\<^sup>2) xs) = (\<Sum>i<n. (xs ! i - avg)\<^sup>2)" .
  have "col_std xs = Some (sqrt (sum_list (map (\<lambda>v. (avg - v)\<^sup>2) xs) / (real n - 1)))"
    using d unfolding col_std_def Let_def avg_def n_def by simp
  also have "\<dots> = Some (sqrt ((\<Sum>i<n. (xs ! i - avg)\<^sup>2) / (real n - 1)))"
    unfolding sqr ..
  also have "\<dots> = Some (sample_std xs)"
    unfolding sample_std_def avg n_def ..
  finally show ?thesis .
qed

lemma game8: "filter (\<lambda>r. gid r = 8) bands_df
   = [\<lparr>tx_id = 5, create_date = 5, user_id = Some 3, gid = 8, amount = 5\<rparr>]"
  by (simp add: bands_df_def)

lemma game7: "filter (\<lambda>r. gid r = 7) bands_df
   = [\<lparr>tx_id = 1, create_date = 1, user_id = Some 1, gid = 7, amount = -10\<rparr>,
      \<lparr>tx_id = 2, create_date = 2, user_id = Some 1, gid = 7, amount = 50\<rparr>,
      \<lparr>tx_id = 3, create_date = 3, user_id = Some 2, gid = 7, amount = -10\<rparr>,
      \<lparr>tx_id = 4, create_date = 4, user_id = Some 2, gid = 7, amount = 200\<rparr>,
      \<lparr>tx_id = 6, create_date = 6, user_id = Some 2, gid = 7, amount = 500\<rparr>,
      \<lparr>tx_id = 7, create_date = 7, user_id = Some 1, gid = 7, amount = 501\<rparr>]"
  by (simp add: bands_df_def)

lemma game_stats_detailed_bands:
  "game_stats_detailed float64 bands_df =
     [(7, analyze_game_performance float64 (filter (\<lambda>r. gid r = 7) bands_df)),
      (8, analyze_game_performance float64 (filter (\<lambda>r. gid r = 8) bands_df))]"
proof -
  have "sort (remdups (map gid bands_df)) = [7, 8]" by (simp add: bands_df_def)
  then show ?thesis by (simp add: game_stats_detailed_def groupby_gid_def)
qed

lemma filter_cong_pos:
  "(\<And>m. m \<in> set ms \<Longrightarrow> P m = Q m) \<Longrightarrow> filter P ms = filter Q ms"
  by (rule filter_cong) simp_all

lemma avg_bet_game_abs:
  "game_bet_df x \<noteq> [] \<Longrightarrow>
   avg_bet_game x = sum_list (map (\<lambda>r. \<bar>amount r\<bar>) (game_bet_df x)) / real (length (game_bet_df x))"
proof -
  assume ne: "game_bet_df x \<noteq> []"
  have "\<bar>sum_list (map amount (game_bet_df x))\<bar> = sum_list (map abs (map amount (game_bet_df x)))"
    by (rule abs_sum_list_neg) (auto simp: game_bet_df_def)
  then show ?thesis using ne by (simp add: avg_bet_game_def col_mean_def comp_def)
qed

lemma multipliers_game7:
  "multipliers (filter (\<lambda>r. gid r = 7) bands_df) = [5, 20, 50, 501 / 10]"
  by (simp add: game7 multipliers_def game_win_df_def avg_bet_game_def game_bet_df_def col_mean_def)

lemma unique_dates_props:
  "sorted (unique_dates fdf) \<and> distinct (unique_dates fdf)
   \<and> set (unique_dates fdf) = date_str ` set fdf"
  by (simp add: unique_dates_def)

lemma unique_dates_strict:
  "i < j \<Longrightarrow> j < length (unique_dates fdf) \<Longrightarrow> unique_dates fdf ! i < unique_dates fdf ! j"
proof -
  assume ij: "i < j" "j < length (unique_dates fdf)"
  have "sorted (unique_dates fdf)" "distinct (unique_dates fdf)"
    using unique_dates_props by auto
  then have "unique_dates fdf ! i \<le> unique_dates fdf ! j" "unique_dates fdf ! i \<noteq> unique_dates fdf ! j"
    using ij by (auto simp: sorted_nth_mono nth_eq_iff_index_eq)
  then show ?thesis by simp
qed

lemma unique_dates_adjacent:
  assumes "i + 1 < length (unique_dates fdf)" "r \<in> set fdf"
  shows "\<not> (unique_dates fdf ! i < date_str r \<and> date_str r < unique_dates fdf ! (i + 1))"
proof
  assume b: "unique_dates fdf ! i < date_str r \<and> date_str r < unique_dates fdf ! (i + 1)"
  have "date_str r \<in> set (unique_dates fdf)" using assms(2) unique_dates_props by auto
  then obtain j where j: "j < length (unique_dates fdf)" "unique_dates fdf ! j = date_str r"
    by (auto simp: in_set_conv_nth)
  have "i < j"
  proof (rule ccontr)
    assume "\<not> i < j"
    then have "j \<le> i" by simp
    then have "unique_dates fdf ! j \<le> unique_dates fdf ! i"
      using assms(1) unique_dates_props [of fdf] by (simp add: sorted_nth_mono)
    then show False using b j by simp
  qed
  moreover have "j < i + 1"
  proof (rule ccontr)
    assume "\<not> j < i + 1"
    then have "i + 1 \<le> j" by simp
    then have "unique_dates fdf ! (i + 1) \<le> unique_dates fdf ! j"
      using j(1) unique_dates_props [of fdf] by (simp add: sorted_nth_mono)
    then show False using b j by simp
  qed
  ultimately show False by simp
qed

lemma retention_rate_bounds:
  "0 \<le> retention_rate (retention_step fdf i) \<and> retention_rate (retention_step fdf i) \<le> 100"
proof -
  let ?c = "users_on fdf (unique_dates fdf ! i)"
  let ?n = "users_on fdf (unique_dates fdf ! (i + 1))"
  have fin: "finite ?c" by (simp add: users_on_def)
  have le: "card (?c \<inter> ?n) \<le> card ?c" using fin by (simp add: card_mono)
  show ?thesis
  proof (cases "card ?c > 0")
    case False
    then show ?thesis by (simp add: retention_step_def Let_def)
  next
    case True
    define q where "q = real (card (?c \<inter> ?n)) / real (card ?c)"
    have q1: "q \<le> 1" unfolding q_def using le True by simp
    have q0: "0 \<le> q" unfolding q_def by simp
    have "retention_rate (retention_step fdf i) = q * 100"
      unfolding q_def using True by (simp add: retention_step_def Let_def)
    then show ?thesis using q0 q1 by simp
  qed
qed

lemma unique_dates_retention_df: "unique_dates retention_df = [0, 1, 3]"
  by (simp add: unique_dates_def retention_df_def date_str_def ns_per_day_def)

lemma users_on_retention_df:
  "users_on retention_df 0 = {Inl 1, Inl 2}" "users_on retention_df 1 = {Inl 1}"
  "users_on retention_df 3 = {Inl 1, Inl 3}"
  by (auto simp: users_on_def retention_df_def date_str_def ns_per_day_def)

text \<open>
  Rows without a user id: each is an element of its day's set, none is retained, so
  that one user retained out of one user and two such rows gives a third.
\<close>

lemma users_on_missing_id_df:
  "unique_dates missing_id_df = [0, 1]"
  "users_on missing_id_df 0 = {Inr 0, Inl 1, Inr 2}"
  "users_on missing_id_df 1 = {Inl 1, Inr 4}"
  "retention_rate (retention_step missing_id_df 0) = 100 / 3"
proof -
  show u: "unique_dates missing_id_df = [0, 1]"
    by (simp add: unique_dates_def missing_id_df_def date_str_def ns_per_day_def)
  show a: "users_on missing_id_df 0 = {Inr 0, Inl 1, Inr 2}"
    by (auto simp: users_on_def missing_id_df_def date_str_def ns_per_day_def)
  show b: "users_on missing_id_df 1 = {Inl 1, Inr 4}"
    by (auto simp: users_on_def missing_id_df_def date_str_def ns_per_day_def)
  show "retention_rate (retention_step missing_id_df 0) = 100 / 3"
    by (simp add: retention_step_def Let_def u a b)
qed

lemma unique_dates_scenario: "unique_dates scenario_df = [0]"
  by (simp add: unique_dates_def scenario_df_def date_str_def ns_per_day_def)







lemma filter_nonzero_bet: "bet_df (filter (\<lambda>r. amount r \<noteq> 0) fdf) = bet_df fdf"
  unfolding bet_df_def filter_filter by (rule filter_cong) auto

lemma filter_nonzero_win: "win_df (filter (\<lambda>r. amount r \<noteq> 0) fdf) = win_df fdf"
  unfolding win_df_def filter_filter by (rule filter_cong) auto

lemma set_display_df: "set (display_df fdf) = with_type ` set fdf"
  by (simp add: display_df_def)

lemma length_display_df: "length (display_df fdf) = length fdf"
  by (simp add: display_df_def)

lemma type_with_type: "type (with_type r) = type_of_amount (amount r)"
  by (simp add: with_type_def transaction.extend_def)

lemma truncate_with_type: "transaction.truncate (with_type r) = r"
  by (simp add: with_type_def transaction.extend_def transaction.truncate_def)

lemma mset_display_df: "mset (map transaction.truncate (display_df fdf)) = mset fdf"
proof -
  have "mset (display_df fdf) = mset (map with_type fdf)" by (simp add: display_df_def)
  then have "mset (map transaction.truncate (display_df fdf))
      = mset (map transaction.truncate (map with_type fdf))"
    by (metis mset_map)
  then show ?thesis by (simp add: comp_def truncate_with_type)
qed

text \<open>
  The label in the raw view is a function of the sign alone: a row that is not a bet is
  shown as a win, a row with amount zero too.
\<close>

lemma type_label_rule:
  "type (with_type r) = (if amount r < 0 then Bet_type else Win_type)"
  by (simp add: type_with_type type_of_amount_def)





lemma wrap_int64_id: "- (2 ^ 63) \<le> n \<Longrightarrow> n < 2 ^ 63 \<Longrightarrow> wrap_int64 n = n"
  by (simp add: wrap_int64_def)

lemma int_sum_list:
  "\<forall>x\<in>set xs. x = of_int \<lfloor>x\<rfloor> \<Longrightarrow> \<exists>k::int. sum_list xs = (of_int k :: real)"
proof (induction xs)
  case Nil
  have "sum_list [] = (of_int 0 :: real)" by simp
  then show ?case by blast
next
  case (Cons x xs)
  then obtain k :: int where k: "sum_list xs = of_int k" by auto
  have "x = of_int \<lfloor>x\<rfloor>" using Cons.prems by simp
  then have "sum_list (x # xs) = of_int (\<lfloor>x\<rfloor> + k)" using k by simp
  then show ?case by blast
qed

lemma bet_df_filter: "bet_df fdf = filter (\<lambda>r. amount r < 0) fdf"
  by (simp add: bet_df_def)

lemma win_df_filter: "win_df fdf = filter (\<lambda>r. 0 < amount r) fdf"
  by (simp add: win_df_def)

lemma abs_sum_bets:
  "\<bar>sum_list (map amount (bet_df fdf))\<bar>
     = sum_list (map (\<lambda>r. \<bar>amount r\<bar>) (filter (\<lambda>r. amount r < 0) fdf))"
proof -
  have "\<bar>sum_list (map amount (bet_df fdf))\<bar> = sum_list (map abs (map amount (bet_df fdf)))"
    by (rule abs_sum_list_neg) (auto simp: bet_df_def)
  then show ?thesis by (simp add: bet_df_def comp_def)
qed

text \<open>
  Where the sums stay within 64 bits, and on every float sheet, the turnover is the
  sum of the absolute values of the bets.
\<close>

lemma turnover_in_range:
  assumes "dt = int64 \<Longrightarrow>
      int_amounts fdf
      \<and> sum_list (map (\<lambda>r. \<bar>amount r\<bar>) (filter (\<lambda>r. amount r < 0) fdf)) < 2 ^ 63"
  shows "total_turnover dt fdf
      = sum_list (map (\<lambda>r. \<bar>amount r\<bar>) (filter (\<lambda>r. amount r < 0) fdf))"
proof (cases dt)
  case float64
  then show ?thesis using abs_sum_bets [of fdf] by (simp add: total_turnover_def sum_as_def abs_as_def)
next
  case int64
  let ?xs = "map amount (bet_df fdf)"
  let ?T = "sum_list (map (\<lambda>r. \<bar>amount r\<bar>) (filter (\<lambda>r. amount r < 0) fdf))"
  have ia: "int_amounts fdf" and lt: "?T < 2 ^ 63" using assms int64 by auto
  have "\<forall>x\<in>set ?xs. x = of_int \<lfloor>x\<rfloor>" using ia by (auto simp: int_amounts_def bet_df_def)
  then obtain k :: int where k: "sum_list ?xs = of_int k" using int_sum_list by blast
  have absk: "\<bar>(of_int k :: real)\<bar> = ?T" using abs_sum_bets [of fdf] k by simp
  then have "(of_int \<bar>k\<bar> :: real) < 2 ^ 63" using lt by simp
  then have "(of_int \<bar>k\<bar> :: real) < of_int (2 ^ 63)" by simp
  then have klt: "\<bar>k\<bar> < 2 ^ 63" by (simp only: of_int_less_iff)
  have w1: "wrap_int64 k = k" by (rule wrap_int64_id) (use klt in auto)
  have w2: "wrap_int64 \<bar>k\<bar> = \<bar>k\<bar>" by (rule wrap_int64_id) (use klt in auto)
  have "total_turnover int64 fdf = of_int \<bar>k\<bar>"
    by (simp add: total_turnover_def sum_as_def abs_as_def k w1 w2)
  then show ?thesis using absk int64 by simp
qed

lemma turnover_in_range_nonneg:
  assumes "dt = int64 \<Longrightarrow>
      int_amounts fdf
      \<and> sum_list (map (\<lambda>r. \<bar>amount r\<bar>) (filter (\<lambda>r. amount r < 0) fdf)) < 2 ^ 63"
  shows "0 \<le> total_turnover dt fdf"
proof -
  have "0 \<le> sum_list (map (\<lambda>r. \<bar>amount r\<bar>) (filter (\<lambda>r. amount r < 0) fdf))"
    by (rule sum_list_nonneg) auto
  then show ?thesis using turnover_in_range [OF assms] by simp
qed

lemma int_amounts_overflow_df: "int_amounts overflow_df"
  by (simp add: int_amounts_def overflow_df_def)

lemma ggr_float64: "ggr float64 fdf = total_turnover float64 fdf - total_payout float64 fdf"
  by (simp add: ggr_def sub_as_def)

lemma rtp_zero_turnover: "total_turnover dt fdf = 0 \<Longrightarrow> rtp dt fdf = 0"
  by (simp add: rtp_def)

section \<open>Claims\<close>


text \<open>
  C4. The turnover is to be the sum of the absolute values of the bets, hence never
  negative; the tooltip of the metric (line 184) says so too. On an integral sheet
  the sum and its absolute value are 64-bit integers: for two bets of \<open>2\<^sup>6\<^sup>2\<close> the
  sum of the absolute values is \<open>2\<^sup>6\<^sup>3\<close>, the sum of the amounts is the least 64-bit
  integer, its absolute value wraps around to itself, and the turnover that the code
  computes is negative.
\<close>

theorem C4_turnover_int64_overflow:
  "map amount overflow_df
        = [of_int (- 4611686018427387904), of_int (- 4611686018427387904)]
   \<and> sum_list (map (\<lambda>r. \<bar>amount r\<bar>) (filter (\<lambda>r. amount r < 0) overflow_df))
        = 9223372036854775808
   \<and> total_turnover int64 overflow_df = - 9223372036854775808
   \<and> total_turnover int64 overflow_df < 0"
proof -
  have a: "map amount overflow_df
        = [of_int (- 4611686018427387904), of_int (- 4611686018427387904)]"
    by (simp add: overflow_df_def)
  have b: "sum_list (map (\<lambda>r. \<bar>amount r\<bar>) (filter (\<lambda>r. amount r < 0) overflow_df))
        = 9223372036854775808"
    by (simp add: overflow_df_def)
  have s: "sum_list (map amount (bet_df overflow_df)) = - 9223372036854775808"
    by (simp add: overflow_df_def bet_df_def)
  have c: "total_turnover int64 overflow_df = - 9223372036854775808"
    by (simp add: total_turnover_def sum_as_def abs_as_def s wrap_int64_def)
  show ?thesis using a b c by simp
qed

text \<open>
  C1. For a frame sorted ascending by timestamp and any query time \<open>t\<close>, the
  replay slice is the prefix of the positions below the right-biased insertion index:
  every row before the index has a timestamp at most \<open>t\<close>, every row from the
  index on has a later one, so the slice is exactly the rows with timestamp at most
  \<open>t\<close>. At \<open>t\<close> equal to the greatest timestamp, and at any later time, the
  slice is the whole frame; at a time before every timestamp it is empty. The slice
  is a value for every \<open>t\<close>: the search has no failing branch.
\<close>

theorem C1_temporal_slice:
  assumes "sorted (map create_date sdf)"
  shows "searchsorted_right (map create_date sdf) t \<le> length sdf
     \<and> (\<forall>i<searchsorted_right (map create_date sdf) t. create_date (sdf ! i) \<le> t)
     \<and> (\<forall>i. searchsorted_right (map create_date sdf) t \<le> i \<and> i < length sdf
            \<longrightarrow> t < create_date (sdf ! i))
     \<and> subset_df sdf t = take (searchsorted_right (map create_date sdf) t) sdf
     \<and> subset_df sdf t = filter (\<lambda>r. create_date r \<le> t) sdf
     \<and> (sdf \<noteq> [] \<and> t = Max (set (map create_date sdf)) \<longrightarrow> subset_df sdf t = sdf)
     \<and> ((\<forall>r\<in>set sdf. create_date r \<le> t) \<longrightarrow> subset_df sdf t = sdf)
     \<and> ((\<forall>r\<in>set sdf. t < create_date r) \<longrightarrow> subset_df sdf t = [])"
proof -
  have f: "subset_df sdf t = filter (\<lambda>r. create_date r \<le> t) sdf"
    by (rule subset_df_filter [OF assms])
  have full: "(\<forall>r\<in>set sdf. create_date r \<le> t) \<longrightarrow> subset_df sdf t = sdf"
    using f by simp
  have mx: "sdf \<noteq> [] \<and> t = Max (set (map create_date sdf)) \<longrightarrow> subset_df sdf t = sdf"
  proof
    assume a: "sdf \<noteq> [] \<and> t = Max (set (map create_date sdf))"
    have "create_date r \<le> t" if "r \<in> set sdf" for r
      using a that by simp
    then show "subset_df sdf t = sdf" using full by blast
  qed
  have emp: "(\<forall>r\<in>set sdf. t < create_date r) \<longrightarrow> subset_df sdf t = []"
    using f by (auto simp: filter_empty_conv)
  have tk: "subset_df sdf t = take (searchsorted_right (map create_date sdf) t) sdf"
    by (simp add: subset_df_def)
  show ?thesis using subset_df_bounds [OF assms, of t] f full mx emp tk by blast
qed

theorem C1_temporal_slice_witness:
  "sorted (map create_date (sorted_df scenario_df))
   \<and> subset_df (sorted_df scenario_df) 30 = sorted_df scenario_df
   \<and> subset_df (sorted_df scenario_df) 1000 = sorted_df scenario_df
   \<and> subset_df (sorted_df scenario_df) 5 = []
   \<and> subset_df (sorted_df scenario_df) 20 = take 3 (sorted_df scenario_df)"
proof -
  let ?S = "sorted_df scenario_df"
  have h: "sorted (map create_date ?S)" by (rule sorted_sorted_df)
  have m: "?S \<noteq> [] \<and> 30 = Max (set (map create_date ?S))"
    by (simp add: sorted_df_scenario)
  have a: "subset_df ?S 30 = ?S"
    using C1_temporal_slice [OF h, of 30] m by blast
  have le: "\<forall>r\<in>set ?S. create_date r \<le> 1000" by (simp add: sorted_df_scenario)
  have b: "subset_df ?S 1000 = ?S"
    using C1_temporal_slice [OF h, of 1000] le by blast
  have gt: "\<forall>r\<in>set ?S. 5 < create_date r" by (simp add: sorted_df_scenario)
  have c: "subset_df ?S 5 = []"
    using C1_temporal_slice [OF h, of 5] gt by blast
  have "subset_df ?S 20 = filter (\<lambda>r. create_date r \<le> 20) ?S"
    using C1_temporal_slice [OF h, of 20] by blast
  then have d: "subset_df ?S 20 = take 3 ?S" by (simp add: sorted_df_scenario)
  show ?thesis using h a b c d by blast
qed

text \<open>
  C10. On a frame sorted by timestamp, the snapshot function returns \<open>None\<close>
  exactly when the slice is empty, which is exactly when the query time is before
  every timestamp (before the least one, on a non-empty frame); a figure that is
  returned plots the aggregate of the slice, which has a row exactly when some row of
  the slice carries a user id.
\<close>

theorem C10_snapshot_none:
  assumes "sorted (map create_date sdf)"
  shows "(plot_snapshot dt sdf mb mn mx t = None \<longleftrightarrow> subset_df sdf t = [])
     \<and> (subset_df sdf t = [] \<longleftrightarrow> (\<forall>r\<in>set sdf. t < create_date r))
     \<and> (sdf \<noteq> [] \<longrightarrow>
          (plot_snapshot dt sdf mb mn mx t = None \<longleftrightarrow> t < Min (set (map create_date sdf))))
     \<and> (\<forall>fig. plot_snapshot dt sdf mb mn mx t = Some fig \<longrightarrow>
          fig_data fig = user_snapshot dt (subset_df sdf t)
        \<and> (fig_data fig \<noteq> [] \<longleftrightarrow> (\<exists>r\<in>set (subset_df sdf t). user_id r \<noteq> None)))"
proof -
  have f: "subset_df sdf t = filter (\<lambda>r. create_date r \<le> t) sdf"
    by (rule subset_df_filter [OF assms])
  have a: "plot_snapshot dt sdf mb mn mx t = None \<longleftrightarrow> subset_df sdf t = []"
    by (simp add: plot_snapshot_def)
  have b: "subset_df sdf t = [] \<longleftrightarrow> (\<forall>r\<in>set sdf. t < create_date r)"
    using f by (auto simp: filter_empty_conv)
  have c: "sdf \<noteq> [] \<longrightarrow>
          (plot_snapshot dt sdf mb mn mx t = None \<longleftrightarrow> t < Min (set (map create_date sdf)))"
  proof
    assume ne: "sdf \<noteq> []"
    have "(\<forall>r\<in>set sdf. t < create_date r) \<longleftrightarrow> t < Min (set (map create_date sdf))"
      using ne by simp
    then show "plot_snapshot dt sdf mb mn mx t = None \<longleftrightarrow> t < Min (set (map create_date sdf))"
      using a b by simp
  qed
  have e: "user_snapshot dt (subset_df sdf t) \<noteq> []
      \<longleftrightarrow> (\<exists>r\<in>set (subset_df sdf t). user_id r \<noteq> None)"
    by (simp add: user_snapshot_def agg_cum_Nil_iff)
  have d: "\<forall>fig. plot_snapshot dt sdf mb mn mx t = Some fig \<longrightarrow>
          fig_data fig = user_snapshot dt (subset_df sdf t)
        \<and> (fig_data fig \<noteq> [] \<longleftrightarrow> (\<exists>r\<in>set (subset_df sdf t). user_id r \<noteq> None))"
    using e by (auto simp: plot_snapshot_def split: if_splits)
  show ?thesis using a b c d by blast
qed

theorem C10_snapshot_none_witness:
  "sorted (map create_date (sorted_df scenario_df))
   \<and> plot_snapshot float64 (sorted_df scenario_df) 220 (-55) 55 5 = None
   \<and> plot_snapshot float64 (sorted_df scenario_df) 220 (-55) 55 10 \<noteq> None"
proof -
  let ?S = "sorted_df scenario_df"
  have h: "sorted (map create_date ?S)" by (rule sorted_sorted_df)
  have ne: "?S \<noteq> []" by (simp add: sorted_df_scenario)
  have m: "Min (set (map create_date ?S)) = 10"
    by (simp add: sorted_df_scenario)
  have "plot_snapshot float64 ?S 220 (-55) 55 5 = None \<longleftrightarrow> 5 < Min (set (map create_date ?S))"
    using C10_snapshot_none [OF h, of float64 220 "-55" 55 5] ne by blast
  then have a: "plot_snapshot float64 ?S 220 (-55) 55 5 = None" unfolding m by simp
  have "plot_snapshot float64 ?S 220 (-55) 55 10 = None \<longleftrightarrow> 10 < Min (set (map create_date ?S))"
    using C10_snapshot_none [OF h, of float64 220 "-55" 55 10] ne by blast
  then have b: "plot_snapshot float64 ?S 220 (-55) 55 10 \<noteq> None" unfolding m by simp
  show ?thesis using h a b by blast
qed



text \<open>
  C3. For every game of the per-game table, the four band counts add up to the number
  of that game's transactions with a positive amount.
\<close>

theorem C3_band_counts_sum:
  "\<forall>(g, st) \<in> set (game_stats_detailed dt fdf).
      Small_Win st + Big_Win st + Mega_Win st + Super_Win st
        = length (filter (\<lambda>r. gid r = g \<and> amount r > 0) fdf)"
proof (clarify)
  fix g st assume "(g, st) \<in> set (game_stats_detailed dt fdf)"
  then have st: "st = analyze_game_performance dt (filter (\<lambda>r. gid r = g) fdf)"
    using game_stats_detailed_mem by blast
  have "length (game_win_df (filter (\<lambda>r. gid r = g) fdf))
        = length (filter (\<lambda>r. gid r = g \<and> amount r > 0) fdf)"
    by (simp add: game_win_df_def conj_commute)
  then show "Small_Win st + Big_Win st + Mega_Win st + Super_Win st
        = length (filter (\<lambda>r. gid r = g \<and> amount r > 0) fdf)"
    unfolding st using band_counts_total [of dt "filter (\<lambda>r. gid r = g) fdf"] by simp
qed

theorem C3_band_counts_sum_witness:
  "(7, analyze_game_performance float64 (filter (\<lambda>r. gid r = 7) bands_df))
      \<in> set (game_stats_detailed float64 bands_df)
   \<and> Small_Win (analyze_game_performance float64 (filter (\<lambda>r. gid r = 7) bands_df))
     + Big_Win (analyze_game_performance float64 (filter (\<lambda>r. gid r = 7) bands_df))
     + Mega_Win (analyze_game_performance float64 (filter (\<lambda>r. gid r = 7) bands_df))
     + Super_Win (analyze_game_performance float64 (filter (\<lambda>r. gid r = 7) bands_df)) = 4"
proof -
  have m7: "(7, analyze_game_performance float64 (filter (\<lambda>r. gid r = 7) bands_df))
      \<in> set (game_stats_detailed float64 bands_df)"
    by (simp add: game_stats_detailed_bands)
  have n: "length (filter (\<lambda>r. gid r = 7 \<and> amount r > 0) bands_df) = 4"
    by (simp add: bands_df_def)
  show ?thesis using C3_band_counts_sum [of float64 bands_df] m7 n by fastforce
qed

text \<open>
  C5. The multiplier of a win is its amount over the game's average bet, which is the
  mean stake of the game's bets, or 1 for a game without bets. A multiplier is
  positive, so the small band counts the multipliers up to 5 inclusive, the big band
  those above 5 up to 20, the mega band those above 20 up to 50, and the super band
  those above 50: exactly 5 is small, exactly 20 big, exactly 50 mega, and anything
  above 50 super only.
\<close>

theorem C5_multiplier_bands:
  "multipliers x = map (\<lambda>r. amount r / avg_bet_game x) (filter (\<lambda>r. amount r > 0) x)
   \<and> (filter (\<lambda>r. amount r < 0) x = [] \<longrightarrow> avg_bet_game x = 1)
   \<and> (filter (\<lambda>r. amount r < 0) x \<noteq> [] \<longrightarrow>
        avg_bet_game x = sum_list (map (\<lambda>r. \<bar>amount r\<bar>) (filter (\<lambda>r. amount r < 0) x))
                          / real (length (filter (\<lambda>r. amount r < 0) x)))
   \<and> Small_Win (analyze_game_performance dt x) = length (filter (\<lambda>m. m \<le> 5) (multipliers x))
   \<and> Big_Win (analyze_game_performance dt x) = length (filter (\<lambda>m. 5 < m \<and> m \<le> 20) (multipliers x))
   \<and> Mega_Win (analyze_game_performance dt x) = length (filter (\<lambda>m. 20 < m \<and> m \<le> 50) (multipliers x))
   \<and> Super_Win (analyze_game_performance dt x) = length (filter (\<lambda>m. 50 < m) (multipliers x))
   \<and> small_mask 5 \<and> \<not> big_mask 5 \<and> big_mask 20 \<and> \<not> mega_mask 20
   \<and> mega_mask 50 \<and> \<not> super_mask 50
   \<and> (\<forall>m. 50 < m \<longrightarrow> super_mask m \<and> \<not> mega_mask m \<and> \<not> big_mask m \<and> \<not> small_mask m)"
proof -
  have a: "multipliers x = map (\<lambda>r. amount r / avg_bet_game x) (filter (\<lambda>r. amount r > 0) x)"
    by (simp add: multipliers_def game_win_df_def)
  have b: "filter (\<lambda>r. amount r < 0) x = [] \<longrightarrow> avg_bet_game x = 1"
    by (simp add: avg_bet_game_def game_bet_df_def)
  have c: "filter (\<lambda>r. amount r < 0) x \<noteq> [] \<longrightarrow>
        avg_bet_game x = sum_list (map (\<lambda>r. \<bar>amount r\<bar>) (filter (\<lambda>r. amount r < 0) x))
                          / real (length (filter (\<lambda>r. amount r < 0) x))"
    using avg_bet_game_abs [of x] by (simp add: game_bet_df_def)
  have "filter small_mask (multipliers x) = filter (\<lambda>m. m \<le> 5) (multipliers x)"
    by (rule filter_cong_pos) (use multipliers_pos in \<open>auto simp: small_mask_def\<close>)
  then have s: "Small_Win (analyze_game_performance dt x) = length (filter (\<lambda>m. m \<le> 5) (multipliers x))"
    by (simp add: analyze_game_performance_def Let_def)
  have "filter big_mask (multipliers x) = filter (\<lambda>m. 5 < m \<and> m \<le> 20) (multipliers x)"
    by (rule filter_cong_pos) (simp add: big_mask_def)
  then have bg: "Big_Win (analyze_game_performance dt x)
      = length (filter (\<lambda>m. 5 < m \<and> m \<le> 20) (multipliers x))"
    by (simp add: analyze_game_performance_def Let_def)
  have "filter mega_mask (multipliers x) = filter (\<lambda>m. 20 < m \<and> m \<le> 50) (multipliers x)"
    by (rule filter_cong_pos) (simp add: mega_mask_def)
  then have mg: "Mega_Win (analyze_game_performance dt x)
      = length (filter (\<lambda>m. 20 < m \<and> m \<le> 50) (multipliers x))"
    by (simp add: analyze_game_performance_def Let_def)
  have "filter super_mask (multipliers x) = filter (\<lambda>m. 50 < m) (multipliers x)"
    by (rule filter_cong_pos) (simp add: super_mask_def)
  then have sp: "Super_Win (analyze_game_performance dt x) = length (filter (\<lambda>m. 50 < m) (multipliers x))"
    by (simp add: analyze_game_performance_def Let_def)
  have bd: "small_mask 5 \<and> \<not> big_mask 5 \<and> big_mask 20 \<and> \<not> mega_mask 20
      \<and> mega_mask 50 \<and> \<not> super_mask 50"
    by (simp add: small_mask_def big_mask_def mega_mask_def super_mask_def)
  have top: "\<forall>m. 50 < m \<longrightarrow> super_mask m \<and> \<not> mega_mask m \<and> \<not> big_mask m \<and> \<not> small_mask m"
    by (simp add: small_mask_def big_mask_def mega_mask_def super_mask_def)
  show ?thesis using a b c s bg mg sp bd top by blast
qed

theorem C5_multiplier_bands_witness:
  "multipliers (filter (\<lambda>r. gid r = 7) bands_df) = [5, 20, 50, 501 / 10]
   \<and> Small_Win (analyze_game_performance float64 (filter (\<lambda>r. gid r = 7) bands_df)) = 1
   \<and> Big_Win (analyze_game_performance float64 (filter (\<lambda>r. gid r = 7) bands_df)) = 1
   \<and> Mega_Win (analyze_game_performance float64 (filter (\<lambda>r. gid r = 7) bands_df)) = 1
   \<and> Super_Win (analyze_game_performance float64 (filter (\<lambda>r. gid r = 7) bands_df)) = 1
   \<and> filter (\<lambda>r. amount r < 0) (filter (\<lambda>r. gid r = 8) bands_df) = []
   \<and> avg_bet_game (filter (\<lambda>r. gid r = 8) bands_df) = 1
   \<and> multipliers (filter (\<lambda>r. gid r = 8) bands_df) = [5]
   \<and> Small_Win (analyze_game_performance float64 (filter (\<lambda>r. gid r = 8) bands_df)) = 1
   \<and> (50 < (501 / 10 :: real)) \<and> super_mask (501 / 10)"
proof -
  let ?x = "filter (\<lambda>r. gid r = 7) bands_df"
  let ?y = "filter (\<lambda>r. gid r = 8) bands_df"
  note t = C5_multiplier_bands [of ?x float64]
  note u = C5_multiplier_bands [of ?y float64]
  have m: "multipliers ?x = [5, 20, 50, 501 / 10]" by (rule multipliers_game7)
  have "Small_Win (analyze_game_performance float64 ?x) = length (filter (\<lambda>m. m \<le> 5) (multipliers ?x))"
    using t by blast
  then have s: "Small_Win (analyze_game_performance float64 ?x) = 1" unfolding m by simp
  have "Big_Win (analyze_game_performance float64 ?x) = length (filter (\<lambda>m. 5 < m \<and> m \<le> 20) (multipliers ?x))"
    using t by blast
  then have b: "Big_Win (analyze_game_performance float64 ?x) = 1" unfolding m by simp
  have "Mega_Win (analyze_game_performance float64 ?x) = length (filter (\<lambda>m. 20 < m \<and> m \<le> 50) (multipliers ?x))"
    using t by blast
  then have g: "Mega_Win (analyze_game_performance float64 ?x) = 1" unfolding m by simp
  have "Super_Win (analyze_game_performance float64 ?x) = length (filter (\<lambda>m. 50 < m) (multipliers ?x))"
    using t by blast
  then have p: "Super_Win (analyze_game_performance float64 ?x) = 1" unfolding m by simp
  have nb: "filter (\<lambda>r. amount r < 0) ?y = []" by (simp add: game8)
  have av: "avg_bet_game ?y = 1" using u nb by blast
  have "multipliers ?y = map (\<lambda>r. amount r / avg_bet_game ?y) (filter (\<lambda>r. amount r > 0) ?y)"
    using u by blast
  then have my: "multipliers ?y = [5]" unfolding av by (simp add: game8)
  have "Small_Win (analyze_game_performance float64 ?y) = length (filter (\<lambda>m. m \<le> 5) (multipliers ?y))"
    using u by blast
  then have sy: "Small_Win (analyze_game_performance float64 ?y) = 1" unfolding my by simp
  have gt: "50 < (501 / 10 :: real)" by simp
  have sm: "super_mask (501 / 10)" using t gt by blast
  show ?thesis using m s b g p nb av my sy gt sm by blast
qed

text \<open>
  C9. For every game of the per-game table: with exactly one transaction the
  volatility is NaN (\<open>None\<close>); with two or more it is the sample standard
  deviation of all signed amounts of the game.
\<close>

theorem C9_volatility:
  "\<forall>(g, st) \<in> set (game_stats_detailed dt fdf).
      (length (filter (\<lambda>r. gid r = g) fdf) = 1 \<longrightarrow> Volatility st = None)
    \<and> (2 \<le> length (filter (\<lambda>r. gid r = g) fdf) \<longrightarrow>
         Volatility st = Some (sample_std (map amount (filter (\<lambda>r. gid r = g) fdf))))"
proof (clarify)
  fix g st assume "(g, st) \<in> set (game_stats_detailed dt fdf)"
  then have st: "st = analyze_game_performance dt (filter (\<lambda>r. gid r = g) fdf)"
    using game_stats_detailed_mem by blast
  let ?x = "filter (\<lambda>r. gid r = g) fdf"
  have v: "Volatility st = col_std (map amount ?x)"
    by (simp add: st analyze_game_performance_def Let_def)
  have a: "length ?x = 1 \<longrightarrow> Volatility st = None"
    using v col_std_single [of "map amount ?x"] by simp
  have b: "2 \<le> length ?x \<longrightarrow> Volatility st = Some (sample_std (map amount ?x))"
    using v col_std_sample [of "map amount ?x"] by simp
  show "(length ?x = 1 \<longrightarrow> Volatility st = None)
    \<and> (2 \<le> length ?x \<longrightarrow> Volatility st = Some (sample_std (map amount ?x)))"
    using a b by blast
qed

theorem C9_volatility_witness:
  "(8, analyze_game_performance float64 (filter (\<lambda>r. gid r = 8) bands_df))
      \<in> set (game_stats_detailed float64 bands_df)
   \<and> length (filter (\<lambda>r. gid r = 8) bands_df) = 1
   \<and> Volatility (analyze_game_performance float64 (filter (\<lambda>r. gid r = 8) bands_df)) = None
   \<and> (1, analyze_game_performance float64 (filter (\<lambda>r. gid r = 1) scenario_df))
      \<in> set (game_stats_detailed float64 scenario_df)
   \<and> 2 \<le> length (filter (\<lambda>r. gid r = 1) scenario_df)
   \<and> Volatility (analyze_game_performance float64 (filter (\<lambda>r. gid r = 1) scenario_df))
       = Some (sample_std [250, -100, -200, 50])"
proof -
  have m8: "(8, analyze_game_performance float64 (filter (\<lambda>r. gid r = 8) bands_df))
      \<in> set (game_stats_detailed float64 bands_df)"
    by (simp add: game_stats_detailed_bands)
  have l8: "length (filter (\<lambda>r. gid r = 8) bands_df) = 1" by (simp add: game8)
  have v8: "Volatility (analyze_game_performance float64 (filter (\<lambda>r. gid r = 8) bands_df)) = None"
    using C9_volatility [of float64 bands_df] m8 l8 by blast
  have k: "sort (remdups (map gid scenario_df)) = [1]" by (simp add: scenario_df_def)
  have m1: "(1, analyze_game_performance float64 (filter (\<lambda>r. gid r = 1) scenario_df))
      \<in> set (game_stats_detailed float64 scenario_df)"
    by (simp add: game_stats_detailed_def groupby_gid_def k)
  have f1: "map amount (filter (\<lambda>r. gid r = 1) scenario_df) = [250, -100, -200, 50]"
    by (simp add: scenario_df_def)
  have l1: "2 \<le> length (filter (\<lambda>r. gid r = 1) scenario_df)" by (simp add: scenario_df_def)
  have "Volatility (analyze_game_performance float64 (filter (\<lambda>r. gid r = 1) scenario_df))
       = Some (sample_std (map amount (filter (\<lambda>r. gid r = 1) scenario_df)))"
    using C9_volatility [of float64 scenario_df] m1 l1 by blast
  then have v1: "Volatility (analyze_game_performance float64 (filter (\<lambda>r. gid r = 1) scenario_df))
       = Some (sample_std [250, -100, -200, 50])" unfolding f1 .
  show ?thesis using m8 l8 v8 m1 l1 v1 by blast
qed

text \<open>
  C6. The dates of the retention list are the distinct dates of the filtered frame in
  ascending order, paired each with its successor in that list: no date of the frame
  lies strictly between the two, and no calendar day is filled in. The rate of a pair
  is the share, times 100, of the users of the first day that are also active on the
  second, and 0 when the first day has no user; every rate lies between 0 and 100.
  The average retention is the mean of the rates, and with fewer than two distinct
  dates the list is empty and the average is 0. The users of a day are the elements
  of the Python set of its user ids.
\<close>

theorem C6_retention:
  "sorted (unique_dates fdf) \<and> distinct (unique_dates fdf)
   \<and> set (unique_dates fdf) = date_str ` set fdf
   \<and> length (retention_data fdf) = length (unique_dates fdf) - 1
   \<and> (\<forall>i. i + 1 < length (unique_dates fdf) \<longrightarrow>
         date (retention_data fdf ! i) = unique_dates fdf ! i
       \<and> unique_dates fdf ! i < unique_dates fdf ! (i + 1)
       \<and> (\<forall>r\<in>set fdf. \<not> (unique_dates fdf ! i < date_str r
                            \<and> date_str r < unique_dates fdf ! (i + 1)))
       \<and> retention_rate (retention_data fdf ! i) =
           (if card (users_on fdf (unique_dates fdf ! i)) = 0 then 0
            else real (card (users_on fdf (unique_dates fdf ! i)
                             \<inter> users_on fdf (unique_dates fdf ! (i + 1))))
                 / real (card (users_on fdf (unique_dates fdf ! i))) * 100))
   \<and> (\<forall>p\<in>set (retention_data fdf). 0 \<le> retention_rate p \<and> retention_rate p \<le> 100)
   \<and> avg_retention fdf =
        (if retention_data fdf = [] then 0
         else sum_list (map retention_rate (retention_data fdf))
              / real (length (retention_data fdf)))
   \<and> (length (unique_dates fdf) < 2 \<longrightarrow> retention_data fdf = [] \<and> avg_retention fdf = 0)"
proof -
  note u = unique_dates_props [of fdf]
  have len: "length (retention_data fdf) = length (unique_dates fdf) - 1"
    by (simp add: retention_data_def)
  have step: "\<forall>i. i + 1 < length (unique_dates fdf) \<longrightarrow>
         date (retention_data fdf ! i) = unique_dates fdf ! i
       \<and> unique_dates fdf ! i < unique_dates fdf ! (i + 1)
       \<and> (\<forall>r\<in>set fdf. \<not> (unique_dates fdf ! i < date_str r
                            \<and> date_str r < unique_dates fdf ! (i + 1)))
       \<and> retention_rate (retention_data fdf ! i) =
           (if card (users_on fdf (unique_dates fdf ! i)) = 0 then 0
            else real (card (users_on fdf (unique_dates fdf ! i)
                             \<inter> users_on fdf (unique_dates fdf ! (i + 1))))
                 / real (card (users_on fdf (unique_dates fdf ! i))) * 100)"
  proof (intro allI impI)
    fix i assume i: "i + 1 < length (unique_dates fdf)"
    then have nth: "retention_data fdf ! i = retention_step fdf i"
      by (simp add: retention_data_def)
    have a: "date (retention_data fdf ! i) = unique_dates fdf ! i"
      by (simp add: nth retention_step_def Let_def)
    have b: "unique_dates fdf ! i < unique_dates fdf ! (i + 1)"
      using i by (intro unique_dates_strict) simp_all
    have c: "\<forall>r\<in>set fdf. \<not> (unique_dates fdf ! i < date_str r
                            \<and> date_str r < unique_dates fdf ! (i + 1))"
      using unique_dates_adjacent [OF i] by blast
    have d: "retention_rate (retention_data fdf ! i) =
           (if card (users_on fdf (unique_dates fdf ! i)) = 0 then 0
            else real (card (users_on fdf (unique_dates fdf ! i)
                             \<inter> users_on fdf (unique_dates fdf ! (i + 1))))
                 / real (card (users_on fdf (unique_dates fdf ! i))) * 100)"
      by (simp add: nth retention_step_def Let_def)
    show "date (retention_data fdf ! i) = unique_dates fdf ! i
       \<and> unique_dates fdf ! i < unique_dates fdf ! (i + 1)
       \<and> (\<forall>r\<in>set fdf. \<not> (unique_dates fdf ! i < date_str r
                            \<and> date_str r < unique_dates fdf ! (i + 1)))
       \<and> retention_rate (retention_data fdf ! i) =
           (if card (users_on fdf (unique_dates fdf ! i)) = 0 then 0
            else real (card (users_on fdf (unique_dates fdf ! i)
                             \<inter> users_on fdf (unique_dates fdf ! (i + 1))))
                 / real (card (users_on fdf (unique_dates fdf ! i))) * 100)"
      using a b c d by blast
  qed
  have bnd: "\<forall>p\<in>set (retention_data fdf). 0 \<le> retention_rate p \<and> retention_rate p \<le> 100"
    using retention_rate_bounds by (auto simp: retention_data_def)
  have avg: "avg_retention fdf =
        (if retention_data fdf = [] then 0
         else sum_list (map retention_rate (retention_data fdf))
              / real (length (retention_data fdf)))"
    by (simp add: avg_retention_def col_mean_def)
  have few: "length (unique_dates fdf) < 2 \<longrightarrow> retention_data fdf = [] \<and> avg_retention fdf = 0"
  proof
    assume "length (unique_dates fdf) < 2"
    then have "length (unique_dates fdf) - 1 = 0" by simp
    then have "retention_data fdf = []" by (simp add: retention_data_def)
    then show "retention_data fdf = [] \<and> avg_retention fdf = 0" by (simp add: avg_retention_def)
  qed
  show ?thesis using u len step bnd avg few by blast
qed

theorem C6_retention_witness:
  "unique_dates retention_df = [0, 1, 3]
   \<and> map date (retention_data retention_df) = [0, 1]
   \<and> map retention_rate (retention_data retention_df) = [50, 100]
   \<and> avg_retention retention_df = 75
   \<and> length (unique_dates scenario_df) < 2
   \<and> retention_data scenario_df = [] \<and> avg_retention scenario_df = 0"
proof -
  note t = C6_retention [of retention_df]
  have u: "unique_dates retention_df = [0, 1, 3]" by (rule unique_dates_retention_df)
  have len: "length (retention_data retention_df) = 2" using t unfolding u by simp
  have i0: "0 + 1 < length (unique_dates retention_df)" unfolding u by simp
  have i1: "1 + 1 < length (unique_dates retention_df)" unfolding u by simp
  have d0: "date (retention_data retention_df ! 0) = unique_dates retention_df ! 0"
    using t i0 by blast
  have d1: "date (retention_data retention_df ! 1) = unique_dates retention_df ! 1"
    using t i1 by blast
  have r0: "retention_rate (retention_data retention_df ! 0) =
           (if card (users_on retention_df (unique_dates retention_df ! 0)) = 0 then 0
            else real (card (users_on retention_df (unique_dates retention_df ! 0)
                             \<inter> users_on retention_df (unique_dates retention_df ! (0 + 1))))
                 / real (card (users_on retention_df (unique_dates retention_df ! 0))) * 100)"
    using t i0 by blast
  have r1: "retention_rate (retention_data retention_df ! 1) =
           (if card (users_on retention_df (unique_dates retention_df ! 1)) = 0 then 0
            else real (card (users_on retention_df (unique_dates retention_df ! 1)
                             \<inter> users_on retention_df (unique_dates retention_df ! (1 + 1))))
                 / real (card (users_on retention_df (unique_dates retention_df ! 1))) * 100)"
    using t i1 by blast
  have v0: "retention_rate (retention_data retention_df ! 0) = 50"
    using r0 unfolding u by (simp add: users_on_retention_df)
  have v1: "retention_rate (retention_data retention_df ! 1) = 100"
    using r1 unfolding u by (simp add: users_on_retention_df)
  have two: "retention_data retention_df
      = [retention_data retention_df ! 0, retention_data retention_df ! 1]"
    using len by (auto simp: list_eq_iff_nth_eq less_Suc_eq numeral_2_eq_2)
  have dates: "map date (retention_data retention_df) = [0, 1]"
    using d0 d1 unfolding u by (subst two) simp
  have rates: "map retention_rate (retention_data retention_df) = [50, 100]"
    using v0 v1 by (subst two) simp
  have ne: "retention_data retention_df \<noteq> []" using len by auto
  have "avg_retention retention_df = sum_list (map retention_rate (retention_data retention_df))
              / real (length (retention_data retention_df))"
    using t ne by simp
  then have avg: "avg_retention retention_df = 75" unfolding rates len by simp
  have s: "length (unique_dates scenario_df) < 2" by (simp add: unique_dates_scenario)
  have e: "retention_data scenario_df = [] \<and> avg_retention scenario_df = 0"
    using C6_retention [of scenario_df] s by blast
  show ?thesis using u dates rates avg s e by blast
qed



text \<open>
  C8. Rows with amount zero are in neither the bet subset nor the win subset, which
  are the rows with a negative and with a positive amount. The turnover and the spin
  count read the bet subset only, the payout the win subset only, and the hit rate is
  the number of rows with a positive amount over the number with a negative one, so
  that removing the rows with amount zero changes none of the four. The raw view
  keeps every row of the filtered frame, each once, the rows with amount zero among
  them.
\<close>

theorem C8_zero_amounts:
  "bet_df fdf = filter (\<lambda>r. amount r < 0) fdf
   \<and> win_df fdf = filter (\<lambda>r. 0 < amount r) fdf
   \<and> (\<forall>r\<in>set fdf. amount r = 0 \<longrightarrow> r \<notin> set (bet_df fdf) \<and> r \<notin> set (win_df fdf))
   \<and> total_turnover dt fdf = total_turnover dt (filter (\<lambda>r. amount r < 0) fdf)
   \<and> total_payout dt fdf = total_payout dt (filter (\<lambda>r. 0 < amount r) fdf)
   \<and> spin_count fdf = length (filter (\<lambda>r. amount r < 0) fdf)
   \<and> win_rate fdf =
        (if length (filter (\<lambda>r. amount r < 0) fdf) > 0
         then real (length (filter (\<lambda>r. 0 < amount r) fdf))
              / real (length (filter (\<lambda>r. amount r < 0) fdf)) * 100
         else 0)
   \<and> total_turnover dt (filter (\<lambda>r. amount r \<noteq> 0) fdf) = total_turnover dt fdf
   \<and> total_payout dt (filter (\<lambda>r. amount r \<noteq> 0) fdf) = total_payout dt fdf
   \<and> spin_count (filter (\<lambda>r. amount r \<noteq> 0) fdf) = spin_count fdf
   \<and> win_rate (filter (\<lambda>r. amount r \<noteq> 0) fdf) = win_rate fdf
   \<and> mset (map transaction.truncate (display_df fdf)) = mset fdf
   \<and> (\<forall>r\<in>set fdf. amount r = 0 \<longrightarrow> with_type r \<in> set (display_df fdf))"
proof -
  note b = filter_nonzero_bet [of fdf]
  note w = filter_nonzero_win [of fdf]
  have b0: "bet_df fdf = filter (\<lambda>r. amount r < 0) fdf" by (rule bet_df_filter)
  have w0: "win_df fdf = filter (\<lambda>r. 0 < amount r) fdf" by (rule win_df_filter)
  have z: "\<forall>r\<in>set fdf. amount r = 0 \<longrightarrow> r \<notin> set (bet_df fdf) \<and> r \<notin> set (win_df fdf)"
    by (simp add: bet_df_def win_df_def)
  have bb: "bet_df (filter (\<lambda>r. amount r < 0) fdf) = bet_df fdf" by (simp add: bet_df_def)
  have ww: "win_df (filter (\<lambda>r. 0 < amount r) fdf) = win_df fdf" by (simp add: win_df_def)
  have t1: "total_turnover dt fdf = total_turnover dt (filter (\<lambda>r. amount r < 0) fdf)"
    by (simp add: total_turnover_def bb)
  have p1: "total_payout dt fdf = total_payout dt (filter (\<lambda>r. 0 < amount r) fdf)"
    by (simp add: total_payout_def ww)
  have s1: "spin_count fdf = length (filter (\<lambda>r. amount r < 0) fdf)"
    by (simp add: spin_count_def bet_df_def)
  have h1: "win_rate fdf =
        (if length (filter (\<lambda>r. amount r < 0) fdf) > 0
         then real (length (filter (\<lambda>r. 0 < amount r) fdf))
              / real (length (filter (\<lambda>r. amount r < 0) fdf)) * 100
         else 0)"
    by (simp add: win_rate_def spin_count_def bet_df_def win_df_def)
  have t: "total_turnover dt (filter (\<lambda>r. amount r \<noteq> 0) fdf) = total_turnover dt fdf"
    by (simp add: total_turnover_def b)
  have p: "total_payout dt (filter (\<lambda>r. amount r \<noteq> 0) fdf) = total_payout dt fdf"
    by (simp add: total_payout_def w)
  have s: "spin_count (filter (\<lambda>r. amount r \<noteq> 0) fdf) = spin_count fdf"
    by (simp add: spin_count_def b)
  have h: "win_rate (filter (\<lambda>r. amount r \<noteq> 0) fdf) = win_rate fdf"
    by (simp add: win_rate_def spin_count_def b w)
  have d: "mset (map transaction.truncate (display_df fdf)) = mset fdf"
    by (rule mset_display_df)
  have v: "\<forall>r\<in>set fdf. amount r = 0 \<longrightarrow> with_type r \<in> set (display_df fdf)"
    by (simp add: set_display_df)
  show ?thesis using b0 w0 z t1 p1 s1 h1 t p s h d v by blast
qed

theorem C8_zero_amounts_witness:
  "zero_tx \<in> set (scenario_df @ [zero_tx]) \<and> amount zero_tx = 0
   \<and> zero_tx \<notin> set (bet_df (scenario_df @ [zero_tx]))
   \<and> zero_tx \<notin> set (win_df (scenario_df @ [zero_tx]))
   \<and> with_type zero_tx \<in> set (display_df (scenario_df @ [zero_tx]))
   \<and> filter (\<lambda>r. amount r \<noteq> 0) (scenario_df @ [zero_tx]) = scenario_df
   \<and> total_turnover float64 (scenario_df @ [zero_tx]) = total_turnover float64 scenario_df
   \<and> spin_count (scenario_df @ [zero_tx]) = 2
   \<and> win_rate (scenario_df @ [zero_tx]) = 100"
proof -
  let ?df = "scenario_df @ [zero_tx]"
  have m: "zero_tx \<in> set ?df" by simp
  have a: "amount zero_tx = 0" by (simp add: zero_tx_def)
  have f: "filter (\<lambda>r. amount r \<noteq> 0) ?df = scenario_df"
    by (simp add: scenario_df_def zero_tx_def)
  note t = C8_zero_amounts [of ?df float64]
  have z: "zero_tx \<notin> set (bet_df ?df) \<and> zero_tx \<notin> set (win_df ?df)
       \<and> with_type zero_tx \<in> set (display_df ?df)"
    using t m a by blast
  have "total_turnover float64 (filter (\<lambda>r. amount r \<noteq> 0) ?df) = total_turnover float64 ?df"
    using t by blast
  then have tt: "total_turnover float64 ?df = total_turnover float64 scenario_df"
    unfolding f by simp
  have "spin_count ?df = length (filter (\<lambda>r. amount r < 0) ?df)" using t by blast
  then have sc: "spin_count ?df = 2" by (simp add: scenario_df_def zero_tx_def)
  have "win_rate ?df =
        (if length (filter (\<lambda>r. amount r < 0) ?df) > 0
         then real (length (filter (\<lambda>r. 0 < amount r) ?df))
              / real (length (filter (\<lambda>r. amount r < 0) ?df)) * 100
         else 0)" using t by blast
  then have wr: "win_rate ?df = 100" by (simp add: scenario_df_def zero_tx_def)
  show ?thesis using m a z f tt sc wr by blast
qed

end
